theory Spec2Isabelle
  imports Main "HOL-Library.Word"
begin

unbundle bit_operations_syntax

section \<open>The polyglot decoder (decode.go)\<close>

subsection \<open>Bytes, kind tags, errors and results\<close>

type_synonym byte = "8 word"

text \<open>
  The kind tags (\<open>NilRawKind\<close>, \<open>MapRawKind\<close>, ...) and the sentinel \<open>trueBool\<close> are
  constants that decode.go uses and declares elsewhere in the package. Their values are
  not fixed here: every decoder takes them as the parameter \<open>K\<close>, so each theorem holds for
  any assignment of tag values. The \<open>Kind\<close> type of \<open>decodeMap\<close> and \<open>decodeSlice\<close> is a
  one-byte tag, so that \<open>byte(kind)\<close> is the tag itself.
\<close>

record kinds =
  NilRawKind :: byte
  SliceRawKind :: byte
  MapRawKind :: byte
  BytesRawKind :: byte
  StringRawKind :: byte
  ErrorRawKind :: byte
  BoolRawKind :: byte
  Uint8RawKind :: byte
  Uint16RawKind :: byte
  Uint32RawKind :: byte
  StaticUint32RawKind :: byte
  Uint64RawKind :: byte
  Int32RawKind :: byte
  Int64RawKind :: byte
  Float32RawKind :: byte
  Float64RawKind :: byte
  trueBool :: byte

text \<open>The sentinel errors of decode.go, lines 32 to 47.\<close>

datatype error =
    InvalidSlice | InvalidMap | InvalidBytes | InvalidString | InvalidError
  | InvalidBool | InvalidUint8 | InvalidUint16 | InvalidUint32 | InvalidUint64
  | InvalidInt32 | InvalidInt64 | InvalidFloat32 | InvalidFloat64

text \<open>
  A call either returns its tuple of results or stops in a run-time panic (an index or a
  slice bound out of range). Go's \<open>error\<close> result is an \<open>error option\<close>, \<open>None\<close> for
  \<open>nil\<close>.
\<close>

datatype 'r go = Panic | Returns 'r

text \<open>
  The cursor \<open>b\<close> is the list of the bytes it shows. \<open>b[i]\<close> panics unless \<open>i < len(b)\<close>;
  \<open>b[i:]\<close> panics unless \<open>i \<le> len(b)\<close>; \<open>b[:n]\<close> is checked against the length too
  (Go checks it against the capacity, which a cursor does not record: the model panics
  at least as often as the code).
\<close>

definition index :: "byte list \<Rightarrow> nat \<Rightarrow> (byte \<Rightarrow> 'r go) \<Rightarrow> 'r go" where
  "index b i k = (if i < length b then k (b ! i) else Panic)"

definition slice_from :: "byte list \<Rightarrow> nat \<Rightarrow> (byte list \<Rightarrow> 'r go) \<Rightarrow> 'r go" where
  "slice_from b i k = (if i \<le> length b then k (drop i b) else Panic)"

definition slice_to :: "byte list \<Rightarrow> nat \<Rightarrow> (byte list \<Rightarrow> 'r go) \<Rightarrow> 'r go" where
  "slice_to b n k = (if n \<le> length b then k (take n b) else Panic)"

definition VarIntLen16 :: nat where "VarIntLen16 = 3"
definition VarIntLen32 :: nat where "VarIntLen32 = 5"
definition VarIntLen64 :: nat where "VarIntLen64 = 10"

definition continuation :: "'a::len word" where
  "continuation = 0x80"

subsection \<open>Nil, Bool, Uint8\<close>

definition decodeNil :: "kinds \<Rightarrow> byte list \<Rightarrow> (byte list \<times> bool) go" where
  "decodeNil K b =
    (if length b > 0 then
       index b 0 (\<lambda>b0.
         if b0 = NilRawKind K then slice_from b 1 (\<lambda>r. Returns (r, True))
         else Returns (b, False))
     else Returns (b, False))"

definition decodeBool :: "kinds \<Rightarrow> byte list \<Rightarrow> (byte list \<times> bool \<times> error option) go" where
  "decodeBool K b =
    (if length b > 1 then
       index b 0 (\<lambda>b0.
         if b0 = BoolRawKind K then
           index b 1 (\<lambda>b1.
             if b1 = trueBool K then slice_from b 2 (\<lambda>r. Returns (r, True, None))
             else slice_from b 2 (\<lambda>r. Returns (r, False, None)))
         else Returns (b, False, Some InvalidBool))
     else Returns (b, False, Some InvalidBool))"

definition decodeUint8 :: "kinds \<Rightarrow> byte list \<Rightarrow> (byte list \<times> byte \<times> error option) go" where
  "decodeUint8 K b =
    (if length b > 1 then
       index b 0 (\<lambda>b0.
         if b0 = Uint8RawKind K then
           slice_from b 2 (\<lambda>r. index b 1 (\<lambda>b1. Returns (r, b1, None)))
         else Returns (b, 0, Some InvalidUint8))
     else Returns (b, 0, Some InvalidUint8))"

subsection \<open>Fixed-width fields\<close>

definition decodeStaticUint32 ::
  "kinds \<Rightarrow> byte list \<Rightarrow> (byte list \<times> 32 word \<times> error option) go" where
  "decodeStaticUint32 K b =
    (if length b > 4 then
       index b 0 (\<lambda>b0.
         if b0 = StaticUint32RawKind K then
           slice_from b 5 (\<lambda>r.
             index b 4 (\<lambda>b4. index b 3 (\<lambda>b3. index b 2 (\<lambda>b2. index b 1 (\<lambda>b1.
               Returns (r,
                 ucast b4 OR push_bit 8 (ucast b3) OR push_bit 16 (ucast b2)
                   OR push_bit 24 (ucast b1),
                 None))))))
         else Returns (b, 0, Some InvalidUint32))
     else Returns (b, 0, Some InvalidUint32))"

text \<open>
  \<open>math.Float32frombits\<close> and \<open>math.Float64frombits\<close> reinterpret a bit pattern as a
  float without changing it; the decoded float is represented by that bit pattern.
\<close>

definition decodeFloat32 ::
  "kinds \<Rightarrow> byte list \<Rightarrow> (byte list \<times> 32 word \<times> error option) go" where
  "decodeFloat32 K b =
    (if length b > 4 then
       index b 0 (\<lambda>b0.
         if b0 = Float32RawKind K then
           slice_from b 5 (\<lambda>r.
             index b 4 (\<lambda>b4. index b 3 (\<lambda>b3. index b 2 (\<lambda>b2. index b 1 (\<lambda>b1.
               Returns (r,
                 ucast b4 OR push_bit 8 (ucast b3) OR push_bit 16 (ucast b2)
                   OR push_bit 24 (ucast b1),
                 None))))))
         else Returns (b, 0, Some InvalidFloat32))
     else Returns (b, 0, Some InvalidFloat32))"

definition decodeFloat64 ::
  "kinds \<Rightarrow> byte list \<Rightarrow> (byte list \<times> 64 word \<times> error option) go" where
  "decodeFloat64 K b =
    (if length b > 8 then
       index b 0 (\<lambda>b0.
         if b0 = Float64RawKind K then
           slice_from b 9 (\<lambda>r.
             index b 8 (\<lambda>b8. index b 7 (\<lambda>b7. index b 6 (\<lambda>b6. index b 5 (\<lambda>b5.
             index b 4 (\<lambda>b4. index b 3 (\<lambda>b3. index b 2 (\<lambda>b2. index b 1 (\<lambda>b1.
               Returns (r,
                 ucast b8 OR push_bit 8 (ucast b7) OR push_bit 16 (ucast b6)
                   OR push_bit 24 (ucast b5) OR push_bit 32 (ucast b4)
                   OR push_bit 40 (ucast b3) OR push_bit 48 (ucast b2)
                   OR push_bit 56 (ucast b1),
                 None))))))))))
         else Returns (b, 0, Some InvalidFloat64))
     else Returns (b, 0, Some InvalidFloat64))"

subsection \<open>Unsigned varints\<close>

function decodeUint16_loop ::
  "byte list \<Rightarrow> nat \<Rightarrow> 16 word \<Rightarrow> nat \<Rightarrow> (byte list \<times> 16 word \<times> error option) go" where
  "decodeUint16_loop b i x s =
    (if i < VarIntLen16 + 1 then
       index b i (\<lambda>cb.
         if cb < continuation then
           (if i > VarIntLen16 \<and> cb > 1 then Returns (b, 0, Some InvalidUint32)
            else slice_from b (i + 1) (\<lambda>r. Returns (r, x OR push_bit s (ucast cb), None)))
         else decodeUint16_loop b (i + 1)
                (x OR push_bit s (ucast (cb AND (continuation - 1)))) (s + 7))
     else Returns (b, 0, Some InvalidUint16))"
  by pat_completeness auto
termination
  by (relation "measure (\<lambda>(b, i, x, s). VarIntLen16 + 1 - i)") auto

declare decodeUint16_loop.simps [simp del]

definition decodeUint16 :: "kinds \<Rightarrow> byte list \<Rightarrow> (byte list \<times> 16 word \<times> error option) go" where
  "decodeUint16 K b =
    (if length b > 1 then
       index b 0 (\<lambda>b0.
         if b0 = Uint16RawKind K then decodeUint16_loop b 1 0 0
         else Returns (b, 0, Some InvalidUint16))
     else Returns (b, 0, Some InvalidUint16))"

definition decodeUint32 :: "kinds \<Rightarrow> byte list \<Rightarrow> (byte list \<times> 32 word \<times> error option) go" where
  "decodeUint32 K b =
    (if length b > 1 then
       index b 0 (\<lambda>b0.
         if b0 = Uint32RawKind K then
           index b 1 (\<lambda>b1. let cb = (ucast b1 :: 32 word) in
             if cb < continuation then slice_from b 2 (\<lambda>r. Returns (r, cb, None))
             else let x = cb AND (continuation - 1) in
           index b 2 (\<lambda>b2. let cb = (ucast b2 :: 32 word) in
             if cb < continuation then
               slice_from b 3 (\<lambda>r. Returns (r, x OR push_bit 7 cb, None))
             else let x = x OR push_bit 7 (cb AND (continuation - 1)) in
           index b 3 (\<lambda>b3. let cb = (ucast b3 :: 32 word) in
             if cb < continuation then
               slice_from b 4 (\<lambda>r. Returns (r, x OR push_bit 14 cb, None))
             else let x = x OR push_bit 14 (cb AND (continuation - 1)) in
           index b 4 (\<lambda>b4. let cb = (ucast b4 :: 32 word) in
             if cb < continuation then
               slice_from b 5 (\<lambda>r. Returns (r, x OR push_bit 21 cb, None))
             else let x = x OR push_bit 21 (cb AND (continuation - 1)) in
           index b 5 (\<lambda>b5. let cb = (ucast b5 :: 32 word) in
             if cb < continuation then
               slice_from b 6 (\<lambda>r. Returns (r, x OR push_bit 28 cb, None))
             else Returns (b, 0, Some InvalidUint32))))))
         else Returns (b, 0, Some InvalidUint32))
     else Returns (b, 0, Some InvalidUint32))"

function decodeUint64_loop ::
  "byte list \<Rightarrow> nat \<Rightarrow> 64 word \<Rightarrow> nat \<Rightarrow> (byte list \<times> 64 word \<times> error option) go" where
  "decodeUint64_loop b i x s =
    (if i < VarIntLen64 + 1 then
       index b i (\<lambda>cb.
         if cb < continuation then
           (if i > VarIntLen64 \<and> cb > 1 then Returns (b, 0, Some InvalidUint64)
            else slice_from b (i + 1) (\<lambda>r. Returns (r, x OR push_bit s (ucast cb), None)))
         else decodeUint64_loop b (i + 1)
                (x OR push_bit s (ucast (cb AND (continuation - 1)))) (s + 7))
     else Returns (b, 0, Some InvalidUint64))"
  by pat_completeness auto
termination
  by (relation "measure (\<lambda>(b, i, x, s). VarIntLen64 + 1 - i)") auto

declare decodeUint64_loop.simps [simp del]

definition decodeUint64 :: "kinds \<Rightarrow> byte list \<Rightarrow> (byte list \<times> 64 word \<times> error option) go" where
  "decodeUint64 K b =
    (if length b > 1 then
       index b 0 (\<lambda>b0.
         if b0 = Uint64RawKind K then decodeUint64_loop b 1 0 0
         else Returns (b, 0, Some InvalidUint64))
     else Returns (b, 0, Some InvalidUint64))"

subsection \<open>Signed varints\<close>

text \<open>
  An \<open>int32\<close> or \<open>int64\<close> is the word of its two's complement representation (\<open>sint\<close>
  reads it); \<open>int32(x >> 1)\<close> keeps the bits, and \<open>-\<close> and \<open>+\<close> wrap as Go's do.
\<close>

definition decodeInt32 :: "kinds \<Rightarrow> byte list \<Rightarrow> (byte list \<times> 32 word \<times> error option) go" where
  "decodeInt32 K b =
    (if length b > 1 then
       index b 0 (\<lambda>b0.
         if b0 = Int32RawKind K then
           index b 1 (\<lambda>b1. let cb = (ucast b1 :: 32 word) in
             if cb < continuation then
               (let x = drop_bit 1 cb;
                    x = (if cb AND 1 \<noteq> 0 then - (x + 1) else x)
                in slice_from b 2 (\<lambda>r. Returns (r, x, None)))
             else let x = cb AND (continuation - 1) in
           index b 2 (\<lambda>b2. let cb = (ucast b2 :: 32 word) in
             if cb < continuation then
               (let x = x OR push_bit 7 cb in
                if x AND 1 \<noteq> 0 then
                  slice_from b 3 (\<lambda>r. Returns (r, - (drop_bit 1 x + 1), None))
                else slice_from b 3 (\<lambda>r. Returns (r, drop_bit 1 x, None)))
             else let x = x OR push_bit 7 (cb AND (continuation - 1)) in
           index b 3 (\<lambda>b3. let cb = (ucast b3 :: 32 word) in
             if cb < continuation then
               (let x = x OR push_bit 14 cb in
                if x AND 1 \<noteq> 0 then
                  slice_from b 4 (\<lambda>r. Returns (r, - (drop_bit 1 x + 1), None))
                else slice_from b 4 (\<lambda>r. Returns (r, drop_bit 1 x, None)))
             else let x = x OR push_bit 14 (cb AND (continuation - 1)) in
           index b 4 (\<lambda>b4. let cb = (ucast b4 :: 32 word) in
             if cb < continuation then
               (let x = x OR push_bit 21 cb in
                if x AND 1 \<noteq> 0 then
                  slice_from b 5 (\<lambda>r. Returns (r, - (drop_bit 1 x + 1), None))
                else slice_from b 5 (\<lambda>r. Returns (r, drop_bit 1 x, None)))
             else let x = x OR push_bit 21 (cb AND (continuation - 1)) in
           index b 5 (\<lambda>b5. let cb = (ucast b5 :: 32 word) in
             if cb < continuation then
               (let x = x OR push_bit 28 cb in
                if x AND 1 \<noteq> 0 then
                  slice_from b 6 (\<lambda>r. Returns (r, - (drop_bit 1 x + 1), None))
                else slice_from b 6 (\<lambda>r. Returns (r, drop_bit 1 x, None)))
             else Returns (b, 0, Some InvalidInt32))))))
         else Returns (b, 0, Some InvalidInt32))
     else Returns (b, 0, Some InvalidInt32))"

function decodeInt64_loop ::
  "byte list \<Rightarrow> nat \<Rightarrow> 64 word \<Rightarrow> nat \<Rightarrow> (byte list \<times> 64 word \<times> error option) go" where
  "decodeInt64_loop b i ux s =
    (if i < VarIntLen64 + 1 then
       index b i (\<lambda>cb.
         if cb < continuation then
           (if i > VarIntLen64 \<and> cb > 1 then Returns (b, 0, Some InvalidInt64)
            else
              (let ux = ux OR push_bit s (ucast cb);
                   x = drop_bit 1 ux;
                   x = (if ux AND 1 \<noteq> 0 then - (x + 1) else x)
               in slice_from b (i + 1) (\<lambda>r. Returns (r, x, None))))
         else decodeInt64_loop b (i + 1)
                (ux OR push_bit s (ucast (cb AND (continuation - 1)))) (s + 7))
     else Returns (b, 0, Some InvalidInt64))"
  by pat_completeness auto
termination
  by (relation "measure (\<lambda>(b, i, ux, s). VarIntLen64 + 1 - i)") auto

declare decodeInt64_loop.simps [simp del]

definition decodeInt64 :: "kinds \<Rightarrow> byte list \<Rightarrow> (byte list \<times> 64 word \<times> error option) go" where
  "decodeInt64 K b =
    (if length b > 1 then
       index b 0 (\<lambda>b0.
         if b0 = Int64RawKind K then decodeInt64_loop b 1 0 0
         else Returns (b, 0, Some InvalidInt64))
     else Returns (b, 0, Some InvalidInt64))"

subsection \<open>Container headers\<close>

definition decodeMap ::
  "kinds \<Rightarrow> byte list \<Rightarrow> byte \<Rightarrow> byte \<Rightarrow> (byte list \<times> 32 word \<times> error option) go" where
  "decodeMap K b keyKind valueKind =
    (if length b > 2 then
       index b 0 (\<lambda>b0.
         if b0 = MapRawKind K then
           index b 1 (\<lambda>b1.
             if b1 = keyKind then
               index b 2 (\<lambda>b2.
                 if b2 = valueKind then
                   slice_from b 3 (\<lambda>b3.
                     case decodeStaticUint32 K b3 of
                       Panic \<Rightarrow> Panic
                     | Returns (b', sz, err) \<Rightarrow>
                         if err \<noteq> None then Returns (b', 0, Some InvalidMap)
                         else Returns (b', sz, None))
                 else Returns (b, 0, Some InvalidMap))
             else Returns (b, 0, Some InvalidMap))
         else Returns (b, 0, Some InvalidMap))
     else Returns (b, 0, Some InvalidMap))"

definition decodeSlice ::
  "kinds \<Rightarrow> byte list \<Rightarrow> byte \<Rightarrow> (byte list \<times> 32 word \<times> error option) go" where
  "decodeSlice K b kind =
    (if length b > 1 then
       index b 0 (\<lambda>b0.
         if b0 = SliceRawKind K then
           index b 1 (\<lambda>b1.
             if b1 = kind then
               slice_from b 2 (\<lambda>b2.
                 case decodeStaticUint32 K b2 of
                   Panic \<Rightarrow> Panic
                 | Returns (b', sz, err) \<Rightarrow>
                     if err \<noteq> None then Returns (b', 0, Some InvalidSlice)
                     else Returns (b', sz, None))
             else Returns (b, 0, Some InvalidSlice))
         else Returns (b, 0, Some InvalidSlice))
     else Returns (b, 0, Some InvalidSlice))"

subsection \<open>String and Error\<close>

text \<open>
  Go's \<open>int\<close> is taken as 64 bits wide, so \<open>int(size)\<close> is the value of the
  \<open>uint32\<close> and \<open>int(size)-1\<close> does not wrap. A Go string is its bytes.
\<close>

definition decodeString ::
  "kinds \<Rightarrow> byte list \<Rightarrow> (byte list \<times> byte list \<times> error option) go" where
  "decodeString K b =
    (if length b > 0 then
       index b 0 (\<lambda>b0.
         if b0 = StringRawKind K then
           slice_from b 1 (\<lambda>b1.
             case decodeStaticUint32 K b1 of
               Panic \<Rightarrow> Panic
             | Returns (b', sz, err) \<Rightarrow>
                 if err \<noteq> None then Returns (b', [], Some InvalidString)
                 else if int (length b') > uint sz - 1 then
                   slice_from b' (unat sz) (\<lambda>r.
                     slice_to b' (unat sz) (\<lambda>v. Returns (r, v, None)))
                 else Returns (b', [], Some InvalidString))
         else Returns (b, [], Some InvalidString))
     else Returns (b, [], Some InvalidString))"

text \<open>
  \<open>decodeError\<close> returns a Go \<open>error\<close> as its value: \<open>nil\<close> is \<open>None\<close>, and
  \<open>Error(val)\<close> is \<open>Some val\<close>, the message that the error wraps.
\<close>

definition decodeError ::
  "kinds \<Rightarrow> byte list \<Rightarrow> (byte list \<times> byte list option \<times> error option) go" where
  "decodeError K b =
    (if length b > 0 then
       index b 0 (\<lambda>b0.
         if b0 = ErrorRawKind K then
           slice_from b 1 (\<lambda>b1.
             case decodeString K b1 of
               Panic \<Rightarrow> Panic
             | Returns (b', val, err) \<Rightarrow>
                 if err \<noteq> None then Returns (b', None, Some InvalidError)
                 else Returns (b', Some val, None))
         else Returns (b, None, Some InvalidError))
     else Returns (b, None, Some InvalidError))"

subsection \<open>Bytes, with a destination buffer\<close>

text \<open>
  \<open>decodeBytes\<close> writes into the buffer \<open>ret\<close> of its caller, so \<open>ret\<close> is a Go slice
  in a store: the store is the list of the backing arrays allocated so far, and a slice
  names its array, the offset of its first element, its length and its capacity. The
  nil slice is \<open>None\<close>. The cursor \<open>b\<close> stays a list of bytes: its array is taken to be
  disjoint from the destination's.
\<close>

record slice =
  slice_base :: nat
  slice_off :: nat
  slice_len :: nat
  slice_cap :: nat

type_synonym heap = "byte list list"

definition len_slice :: "slice option \<Rightarrow> nat" where
  "len_slice ret = (case ret of None \<Rightarrow> 0 | Some s \<Rightarrow> slice_len s)"

definition slice_bytes :: "heap \<Rightarrow> slice option \<Rightarrow> byte list" where
  "slice_bytes h ret =
    (case ret of None \<Rightarrow> []
     | Some s \<Rightarrow> take (slice_len s) (drop (slice_off s) (h ! slice_base s)))"

definition write_at :: "byte list \<Rightarrow> nat \<Rightarrow> byte list \<Rightarrow> byte list" where
  "write_at arr i ys = take i arr @ ys @ drop (i + length ys) arr"

text \<open>\<open>make([]byte, n)\<close>: a new zeroed array of its own.\<close>

definition make_bytes :: "heap \<Rightarrow> nat \<Rightarrow> heap \<times> slice" where
  "make_bytes h n =
    (h @ [replicate n 0], \<lparr>slice_base = length h, slice_off = 0, slice_len = n, slice_cap = n\<rparr>)"

text \<open>\<open>copy(dst, src)\<close> copies \<open>min(len(dst), len(src))\<close> bytes to the front of \<open>dst\<close>.\<close>

definition copy_bytes :: "heap \<Rightarrow> slice option \<Rightarrow> byte list \<Rightarrow> heap" where
  "copy_bytes h dst src =
    (case dst of None \<Rightarrow> h
     | Some s \<Rightarrow>
         h[slice_base s :=
             write_at (h ! slice_base s) (slice_off s) (take (min (slice_len s) (length src)) src)])"

text \<open>
  \<open>append(s, ys...)\<close> writes behind the elements of \<open>s\<close> when the capacity allows, and
  otherwise moves to a new array. How much larger than needed the new array is, is the
  run-time system's choice: \<open>grow\<close> (old capacity, needed length) stands for it.
\<close>

definition append_bytes :: "(nat \<Rightarrow> nat \<Rightarrow> nat) \<Rightarrow> heap \<Rightarrow> slice \<Rightarrow> byte list \<Rightarrow> heap \<times> slice" where
  "append_bytes grow h s ys =
    (let n = slice_len s + length ys in
     if n \<le> slice_cap s then
       (h[slice_base s := write_at (h ! slice_base s) (slice_off s + slice_len s) ys],
        s\<lparr>slice_len := n\<rparr>)
     else
       (let c = max n (grow (slice_cap s) n) in
        (h @ [slice_bytes h (Some s) @ ys @ replicate (c - n) 0],
         \<lparr>slice_base = length h, slice_off = 0, slice_len = n, slice_cap = c\<rparr>)))"

text \<open>The results are the cursor, the byte slice, the error, and the store afterwards.\<close>

definition decodeBytes ::
  "kinds \<Rightarrow> (nat \<Rightarrow> nat \<Rightarrow> nat) \<Rightarrow> heap \<Rightarrow> byte list \<Rightarrow> slice option
     \<Rightarrow> (byte list \<times> slice option \<times> error option \<times> heap) go" where
  "decodeBytes K grow h b ret =
    (if length b > 0 then
       index b 0 (\<lambda>b0.
         if b0 = BytesRawKind K then
           slice_from b 1 (\<lambda>b1.
             case decodeStaticUint32 K b1 of
               Panic \<Rightarrow> Panic
             | Returns (b', sz, err) \<Rightarrow>
                 if err \<noteq> None then Returns (b', None, Some InvalidBytes, h)
                 else if int (length b') > uint sz - 1 then
                   (if int (len_slice ret) < uint sz then
                      (case ret of
                         None \<Rightarrow>
                           (let (h1, ret1) = make_bytes h (unat sz) in
                            slice_to b' (unat sz) (\<lambda>p.
                              let h2 = copy_bytes h1 (Some ret1) p in
                              slice_from b' (unat sz) (\<lambda>r. Returns (r, Some ret1, None, h2))))
                       | Some s \<Rightarrow>
                           slice_to b' (unat sz) (\<lambda>p.
                             let (h1, ret1) = append_bytes grow h (s\<lparr>slice_len := 0\<rparr>) p in
                             slice_from b' (unat sz) (\<lambda>r. Returns (r, Some ret1, None, h1))))
                    else
                      slice_to b' (unat sz) (\<lambda>p.
                        let h1 = copy_bytes h ret p in
                        slice_from b' (unat sz) (\<lambda>r. Returns (r, ret, None, h1))))
                 else Returns (b', None, Some InvalidBytes, h))
         else Returns (b, None, Some InvalidBytes, h))
     else Returns (b, None, Some InvalidBytes, h))"

subsection \<open>A concrete tag assignment\<close>

text \<open>
  Modelled from the spec: the declarations of the kind tags and of \<open>trueBool\<close> are missing
  from the sources. The spec (Data Model, Kind) lists the kinds as Nil, Map, Slice, Bytes,
  String, Error, Bool, Uint8, Uint16, Uint32, StaticUint32, Uint64, Int32, Int64, Float32,
  Float64, with stable, pairwise different one-byte tags; \<open>example_kinds\<close> numbers them in
  that order and takes 1 as the true sentinel. It only instantiates the general theorems
  at concrete inputs.
\<close>

definition example_kinds :: kinds where
  "example_kinds =
    \<lparr>NilRawKind = 0, SliceRawKind = 2, MapRawKind = 1, BytesRawKind = 3,
     StringRawKind = 4, ErrorRawKind = 5, BoolRawKind = 6, Uint8RawKind = 7,
     Uint16RawKind = 8, Uint32RawKind = 9, StaticUint32RawKind = 10,
     Uint64RawKind = 11, Int32RawKind = 12, Int64RawKind = 13,
     Float32RawKind = 14, Float64RawKind = 15, trueBool = 1\<rparr>"

subsection \<open>The spec's framing, for comparison with the code\<close>

text \<open>
  The spec's StaticUint32: exactly 4 bytes, big-endian. \<open>be32\<close> is the number they
  denote, most significant byte first.
\<close>

definition be32 :: "byte \<Rightarrow> byte \<Rightarrow> byte \<Rightarrow> byte \<Rightarrow> 32 word" where
  "be32 c1 c2 c3 c4 =
    word_of_nat (unat c1 * 2 ^ 24 + unat c2 * 2 ^ 16 + unat c3 * 2 ^ 8 + unat c4)"

text \<open>
  The spec's Slice header: the Slice tag, one element-kind byte, a StaticUint32 count
  (its tag and 4 bytes); the element bytes behind it are \<open>rest\<close>. The Map header has a
  key-kind and a value-kind byte instead.
\<close>

fun slice_header :: "kinds \<Rightarrow> byte \<Rightarrow> byte list \<Rightarrow> (32 word \<times> byte list) option" where
  "slice_header K kind (t # k # u # c1 # c2 # c3 # c4 # rest) =
    (if t = SliceRawKind K \<and> k = kind \<and> u = StaticUint32RawKind K
     then Some (be32 c1 c2 c3 c4, rest) else None)"
| "slice_header K kind b = None"

fun map_header :: "kinds \<Rightarrow> byte \<Rightarrow> byte \<Rightarrow> byte list \<Rightarrow> (32 word \<times> byte list) option" where
  "map_header K keyKind valueKind (t # k # v # u # c1 # c2 # c3 # c4 # rest) =
    (if t = MapRawKind K \<and> k = keyKind \<and> v = valueKind \<and> u = StaticUint32RawKind K
     then Some (be32 c1 c2 c3 c4, rest) else None)"
| "map_header K keyKind valueKind b = None"

subsection \<open>Cursors returned with an error\<close>


text \<open>
  The cursor that \<open>decodeString\<close> and \<open>decodeBytes\<close> (tag \<open>tag\<close>) return with an error:
  the cursor itself when the tag does not match, \<open>b[1:]\<close> when the tag matches and no
  StaticUint32 follows, and \<open>b[6:]\<close>, behind the length field, when the payload is shorter
  than the length says.
\<close>

definition framed_error_cursor :: "kinds \<Rightarrow> byte \<Rightarrow> byte list \<Rightarrow> byte list" where
  "framed_error_cursor K tag b =
    (if 1 \<le> length b \<and> b ! 0 = tag then
       if 6 \<le> length b \<and> b ! 1 = StaticUint32RawKind K then drop 6 b else drop 1 b
     else b)"

subsection \<open>The spec's varint and zigzag, for comparison with the code\<close>

text \<open>
  The spec's unsigned varint: the low 7 bits of each byte, accumulated at the bit offsets
  \<open>s\<close>, \<open>s + 7\<close>, \<open>s + 14\<close>, ... in a word of the decoder's width.
\<close>

fun accumulate :: "nat \<Rightarrow> byte list \<Rightarrow> 'a::len word" where
  "accumulate s [] = 0"
| "accumulate s (c # cs) = push_bit s (ucast (c AND 0x7F)) OR accumulate (s + 7) cs"

text \<open>
  The spec's zigzag decode, on the integers: value = \<open>rawUnsigned >> 1\<close>; if
  \<open>rawUnsigned & 1\<close> is set the result is \<open>-(value + 1)\<close>, else \<open>value\<close>.
\<close>

definition zigzag :: "int \<Rightarrow> int" where
  "zigzag u = (let v = drop_bit 1 u in if u AND 1 \<noteq> 0 then - (v + 1) else v)"

text \<open>
  A signed decode as the spec words it: run the unsigned varint decode, then separate
  the sign. \<open>r\<close> is the outcome of the unsigned decode on the same payload, \<open>b\<close> the
  cursor of the signed decode and \<open>e\<close> its error.
\<close>

definition via_zigzag ::
  "error \<Rightarrow> byte list \<Rightarrow> (byte list \<times> 'a::len word \<times> error option) go
     \<Rightarrow> (byte list \<times> 'a word \<times> error option) go" where
  "via_zigzag e b r =
    (case r of
       Panic \<Rightarrow> Panic
     | Returns (c, u, err) \<Rightarrow>
         (case err of
            None \<Rightarrow> Returns (c, word_of_int (zigzag (uint u)), None)
          | Some _ \<Rightarrow> Returns (b, 0, Some e)))"

section \<open>Properties\<close>

lemmas access_defs = index_def slice_from_def slice_to_def

subsection \<open>Nil and Bool\<close>

text \<open>
  C5. \<open>decodeNil\<close> never fails: it has no error result and it does not panic. On a
  non-empty cursor whose first byte is the Nil tag it consumes exactly that byte and
  reports true; on the empty cursor and on any other first byte it returns the cursor
  unchanged and reports false.
\<close>

theorem decodeNil_probe:
  "decodeNil K b =
    (if b \<noteq> [] \<and> hd b = NilRawKind K then Returns (tl b, True) else Returns (b, False))"
  by (cases b) (simp_all add: decodeNil_def access_defs drop_Suc)

theorem decodeNil_probe_witness:
  "decodeNil example_kinds [0, 7] = Returns ([7], True)
   \<and> decodeNil example_kinds [7, 0] = Returns ([7, 0], False)
   \<and> decodeNil example_kinds [] = Returns ([], False)"
  using decodeNil_probe [of example_kinds "[0, 7]"]
    decodeNil_probe [of example_kinds "[7, 0]"]
    decodeNil_probe [of example_kinds "[]"]
  by (simp add: example_kinds_def)

text \<open>
  C6. On a cursor of at least 2 bytes whose first byte is the Bool tag, \<open>decodeBool\<close>
  succeeds and consumes exactly 2 bytes; its value is true iff the payload byte is the
  true sentinel, and false for every other payload byte, without an error. In every
  other case (fewer than 2 bytes, or another first byte) it fails with InvalidBool,
  and only then.
\<close>

theorem decodeBool_strict_true:
  "decodeBool K b =
    (if 2 \<le> length b \<and> b ! 0 = BoolRawKind K
     then Returns (drop 2 b, b ! 1 = trueBool K, None)
     else Returns (b, False, Some InvalidBool))"
  by (simp add: decodeBool_def access_defs)

theorem decodeBool_strict_true_witness:
  "decodeBool example_kinds [6, 1, 9] = Returns ([9], True, None)
   \<and> decodeBool example_kinds [6, 0] = Returns ([], False, None)
   \<and> decodeBool example_kinds [6, 2] = Returns ([], False, None)
   \<and> decodeBool example_kinds [6, 255, 1] = Returns ([1], False, None)
   \<and> decodeBool example_kinds [6] = Returns ([6], False, Some InvalidBool)
   \<and> decodeBool example_kinds [7, 1] = Returns ([7, 1], False, Some InvalidBool)"
  using decodeBool_strict_true [of example_kinds "[6, 1, 9]"]
    decodeBool_strict_true [of example_kinds "[6, 0]"]
    decodeBool_strict_true [of example_kinds "[6, 2]"]
    decodeBool_strict_true [of example_kinds "[6, 255, 1]"]
    decodeBool_strict_true [of example_kinds "[6]"]
    decodeBool_strict_true [of example_kinds "[7, 1]"]
  by (simp add: example_kinds_def)

subsection \<open>StaticUint32 and the container headers\<close>

lemma be32_or:
  "(ucast c4 :: 32 word) OR push_bit 8 (ucast c3) OR push_bit 16 (ucast c2)
      OR push_bit 24 (ucast c1) = be32 c1 c2 c3 c4"
proof -
  have 1: "push_bit 16 (ucast c2 :: 32 word) OR push_bit 24 (ucast c1)
      = push_bit 16 (ucast c2) + push_bit 24 (ucast c1)"
    by (rule disjunctive_add [symmetric]) (auto simp: bit_simps dest: bit_imp_le_length)
  have 2: "push_bit 8 (ucast c3 :: 32 word) OR (push_bit 16 (ucast c2) OR push_bit 24 (ucast c1))
      = push_bit 8 (ucast c3) + (push_bit 16 (ucast c2) OR push_bit 24 (ucast c1))"
    by (rule disjunctive_add [symmetric]) (auto simp: bit_simps dest: bit_imp_le_length)
  have 3: "(ucast c4 :: 32 word)
        OR (push_bit 8 (ucast c3) OR (push_bit 16 (ucast c2) OR push_bit 24 (ucast c1)))
      = ucast c4 + (push_bit 8 (ucast c3) OR (push_bit 16 (ucast c2) OR push_bit 24 (ucast c1)))"
    by (rule disjunctive_add [symmetric]) (auto simp: bit_simps dest: bit_imp_le_length)
  have "(ucast c4 :: 32 word)
        OR (push_bit 8 (ucast c3) OR (push_bit 16 (ucast c2) OR push_bit 24 (ucast c1)))
      = ucast c4 + (push_bit 8 (ucast c3) + (push_bit 16 (ucast c2) + push_bit 24 (ucast c1)))"
    by (simp only: 3) (simp only: 2, simp only: 1)
  then show ?thesis
    by (simp add: be32_def push_bit_eq_mult)
qed

lemma decodeStaticUint32_eq:
  "decodeStaticUint32 K b =
    (if 5 \<le> length b \<and> b ! 0 = StaticUint32RawKind K
     then Returns (drop 5 b, be32 (b ! 1) (b ! 2) (b ! 3) (b ! 4), None)
     else Returns (b, 0, Some InvalidUint32))"
  by (simp add: decodeStaticUint32_def access_defs be32_or)

lemma decodeSlice_eq:
  "decodeSlice K b kind =
    (if 2 \<le> length b \<and> b ! 0 = SliceRawKind K \<and> b ! 1 = kind then
       if 7 \<le> length b \<and> b ! 2 = StaticUint32RawKind K
       then Returns (drop 7 b, be32 (b ! 3) (b ! 4) (b ! 5) (b ! 6), None)
       else Returns (drop 2 b, 0, Some InvalidSlice)
     else Returns (b, 0, Some InvalidSlice))"
  by (auto simp: decodeSlice_def access_defs decodeStaticUint32_eq)

lemma decodeMap_eq:
  "decodeMap K b keyKind valueKind =
    (if 3 \<le> length b \<and> b ! 0 = MapRawKind K \<and> b ! 1 = keyKind \<and> b ! 2 = valueKind then
       if 8 \<le> length b \<and> b ! 3 = StaticUint32RawKind K
       then Returns (drop 8 b, be32 (b ! 4) (b ! 5) (b ! 6) (b ! 7), None)
       else Returns (drop 3 b, 0, Some InvalidMap)
     else Returns (b, 0, Some InvalidMap))"
  by (auto simp: decodeMap_def access_defs decodeStaticUint32_eq)

lemma slice_header_Some:
  "slice_header K kind b = Some (n, rest) \<longleftrightarrow>
     7 \<le> length b \<and> b ! 0 = SliceRawKind K \<and> b ! 1 = kind \<and> b ! 2 = StaticUint32RawKind K
     \<and> n = be32 (b ! 3) (b ! 4) (b ! 5) (b ! 6) \<and> rest = drop 7 b"
  by (induction K kind b rule: slice_header.induct) auto

lemma map_header_Some:
  "map_header K kk vk b = Some (n, rest) \<longleftrightarrow>
     8 \<le> length b \<and> b ! 0 = MapRawKind K \<and> b ! 1 = kk \<and> b ! 2 = vk
     \<and> b ! 3 = StaticUint32RawKind K
     \<and> n = be32 (b ! 4) (b ! 5) (b ! 6) (b ! 7) \<and> rest = drop 8 b"
  by (induction K kk vk b rule: map_header.induct) auto

text \<open>
  C8. \<open>decodeSlice\<close> succeeds exactly on a cursor that starts with the Slice tag, the
  expected element-kind byte and a StaticUint32 (its tag and 4 big-endian bytes); it then
  returns that count and the cursor behind these 7 header bytes, so no element byte is
  consumed. On every other cursor it fails with InvalidSlice. \<open>decodeMap\<close> is the same
  with the Map tag, the expected key-kind byte, the expected value-kind byte and the
  StaticUint32 count (8 header bytes), failing with InvalidMap.
\<close>

theorem header_framing:
  "(slice_header K kind b = Some (n, rest) \<longrightarrow>
      decodeSlice K b kind = Returns (rest, n, None))
   \<and> (slice_header K kind b = None \<longrightarrow>
      (\<exists>c. decodeSlice K b kind = Returns (c, 0, Some InvalidSlice)))
   \<and> (map_header K keyKind valueKind b = Some (n', rest') \<longrightarrow>
      decodeMap K b keyKind valueKind = Returns (rest', n', None))
   \<and> (map_header K keyKind valueKind b = None \<longrightarrow>
      (\<exists>c. decodeMap K b keyKind valueKind = Returns (c, 0, Some InvalidMap)))"
proof (intro conjI impI)
  assume "slice_header K kind b = Some (n, rest)"
  then show "decodeSlice K b kind = Returns (rest, n, None)"
    by (simp add: slice_header_Some decodeSlice_eq)
next
  assume "slice_header K kind b = None"
  then have "\<not> (7 \<le> length b \<and> b ! 0 = SliceRawKind K \<and> b ! 1 = kind
      \<and> b ! 2 = StaticUint32RawKind K)"
    using slice_header_Some [of K kind b] by auto
  then show "\<exists>c. decodeSlice K b kind = Returns (c, 0, Some InvalidSlice)"
    by (auto simp: decodeSlice_eq)
next
  assume "map_header K keyKind valueKind b = Some (n', rest')"
  then show "decodeMap K b keyKind valueKind = Returns (rest', n', None)"
    by (simp add: map_header_Some decodeMap_eq)
next
  assume "map_header K keyKind valueKind b = None"
  then have "\<not> (8 \<le> length b \<and> b ! 0 = MapRawKind K \<and> b ! 1 = keyKind
      \<and> b ! 2 = valueKind \<and> b ! 3 = StaticUint32RawKind K)"
    using map_header_Some [of K keyKind valueKind b] by auto
  then show "\<exists>c. decodeMap K b keyKind valueKind = Returns (c, 0, Some InvalidMap)"
    by (auto simp: decodeMap_eq)
qed

theorem header_framing_witness:
  "slice_header example_kinds 7 [2, 7, 10, 0, 0, 1, 2, 9, 9] = Some (258, [9, 9])
   \<and> decodeSlice example_kinds [2, 7, 10, 0, 0, 1, 2, 9, 9] 7 = Returns ([9, 9], 258, None)
   \<and> slice_header example_kinds 7 [2, 6, 10, 0, 0, 1, 2] = None
   \<and> (\<exists>c. decodeSlice example_kinds [2, 6, 10, 0, 0, 1, 2] 7
          = Returns (c, 0, Some InvalidSlice))
   \<and> map_header example_kinds 4 9 [1, 4, 9, 10, 0, 0, 0, 32, 5] = Some (32, [5])
   \<and> decodeMap example_kinds [1, 4, 9, 10, 0, 0, 0, 32, 5] 4 9 = Returns ([5], 32, None)
   \<and> map_header example_kinds 4 9 [1, 4, 9, 10, 0, 0, 0] = None
   \<and> (\<exists>c. decodeMap example_kinds [1, 4, 9, 10, 0, 0, 0] 4 9
          = Returns (c, 0, Some InvalidMap))"
proof -
  have s1: "slice_header example_kinds 7 [2, 7, 10, 0, 0, 1, 2, 9, 9] = Some (258, [9, 9])"
    by (simp add: example_kinds_def be32_def)
  have s2: "slice_header example_kinds 7 [2, 6, 10, 0, 0, 1, 2] = None"
    by (simp add: example_kinds_def)
  have m1: "map_header example_kinds 4 9 [1, 4, 9, 10, 0, 0, 0, 32, 5] = Some (32, [5])"
    by (simp add: example_kinds_def be32_def)
  have m2: "map_header example_kinds 4 9 [1, 4, 9, 10, 0, 0, 0] = None"
    by simp
  from s1 s2 m1 m2
    header_framing [where K = example_kinds and kind = 7
      and b = "[2, 7, 10, 0, 0, 1, 2, 9, 9]" and n = 258 and rest = "[9, 9]"]
    header_framing [where K = example_kinds and kind = 7 and b = "[2, 6, 10, 0, 0, 1, 2]"]
    header_framing [where K = example_kinds and keyKind = 4 and valueKind = 9
      and b = "[1, 4, 9, 10, 0, 0, 0, 32, 5]" and n' = 32 and rest' = "[5]"]
    header_framing [where K = example_kinds and keyKind = 4 and valueKind = 9
      and b = "[1, 4, 9, 10, 0, 0, 0]"]
  show ?thesis by blast
qed

subsection \<open>The cursor on an error return\<close>























subsection \<open>String, Bytes and Error\<close>

lemma len_guard: "(uint (w :: 32 word) - 1 < int n) \<longleftrightarrow> unat w \<le> n"
  by (subst uint_nat) arith

lemma len_guard2: "(int n < uint (w :: 32 word)) \<longleftrightarrow> n < unat w"
  by (subst uint_nat) arith

lemma ge5_decomp: "5 \<le> length xs \<Longrightarrow> \<exists>a c1 c2 c3 c4 r. xs = a # c1 # c2 # c3 # c4 # r"
  by (auto simp: numeral_eq_Suc Suc_le_length_iff)

lemma decodeString_tag:
  "\<not> (1 \<le> length b \<and> b ! 0 = StringRawKind K) \<Longrightarrow>
     decodeString K b = Returns (b, [], Some InvalidString)"
  by (cases b) (auto simp: decodeString_def access_defs)

lemma decodeString_static:
  "\<not> (5 \<le> length b1 \<and> b1 ! 0 = StaticUint32RawKind K) \<Longrightarrow>
     decodeString K (StringRawKind K # b1) = Returns (b1, [], Some InvalidString)"
  by (auto simp: decodeString_def access_defs decodeStaticUint32_eq)

lemma decodeString_payload:
  "decodeString K (StringRawKind K # StaticUint32RawKind K # c1 # c2 # c3 # c4 # p) =
     (if unat (be32 c1 c2 c3 c4) \<le> length p
      then Returns (drop (unat (be32 c1 c2 c3 c4)) p, take (unat (be32 c1 c2 c3 c4)) p, None)
      else Returns (p, [], Some InvalidString))"
  by (simp add: decodeString_def access_defs decodeStaticUint32_eq len_guard)

lemma framed_error_cursor_simps:
  "\<not> (1 \<le> length b \<and> b ! 0 = tag) \<Longrightarrow> framed_error_cursor K tag b = b"
  "\<not> (5 \<le> length b1 \<and> b1 ! 0 = StaticUint32RawKind K) \<Longrightarrow>
     framed_error_cursor K tag (tag # b1) = b1"
  "framed_error_cursor K tag (tag # StaticUint32RawKind K # c1 # c2 # c3 # c4 # p) = p"
  by (auto simp: framed_error_cursor_def)


lemma decodeBytes_tag:
  "\<not> (1 \<le> length b \<and> b ! 0 = BytesRawKind K) \<Longrightarrow>
     decodeBytes K grow h b ret = Returns (b, None, Some InvalidBytes, h)"
  by (cases b) (auto simp: decodeBytes_def access_defs)

lemma decodeBytes_static:
  "\<not> (5 \<le> length b1 \<and> b1 ! 0 = StaticUint32RawKind K) \<Longrightarrow>
     decodeBytes K grow h (BytesRawKind K # b1) ret = Returns (b1, None, Some InvalidBytes, h)"
  by (auto simp: decodeBytes_def access_defs decodeStaticUint32_eq)

lemma decodeBytes_payload:
  "decodeBytes K grow h (BytesRawKind K # StaticUint32RawKind K # c1 # c2 # c3 # c4 # p) ret =
     (let n = unat (be32 c1 c2 c3 c4) in
      if n \<le> length p then
        if len_slice ret < n then
          case ret of
            None \<Rightarrow>
              (let (h1, ret1) = make_bytes h n
               in Returns (drop n p, Some ret1, None, copy_bytes h1 (Some ret1) (take n p)))
          | Some s \<Rightarrow>
              (let (h1, ret1) = append_bytes grow h (s\<lparr>slice_len := 0\<rparr>) (take n p)
               in Returns (drop n p, Some ret1, None, h1))
        else Returns (drop n p, ret, None, copy_bytes h ret (take n p))
      else Returns (p, None, Some InvalidBytes, h))"
  by (simp add: decodeBytes_def access_defs decodeStaticUint32_eq len_guard len_guard2 Let_def
      split: option.splits prod.splits)

lemma decodeBytes_error:
  assumes "decodeBytes K grow h b ret = Returns (c, r, Some e, h')"
  shows "r = None \<and> c = framed_error_cursor K (BytesRawKind K) b"
proof (cases "1 \<le> length b \<and> b ! 0 = BytesRawKind K")
  case False
  with assms show ?thesis
    by (simp add: decodeBytes_tag framed_error_cursor_simps)
next
  case True
  then obtain b1 where b: "b = BytesRawKind K # b1"
    by (cases b) auto
  show ?thesis
  proof (cases "5 \<le> length b1 \<and> b1 ! 0 = StaticUint32RawKind K")
    case False
    with assms b show ?thesis
      by (simp add: decodeBytes_static framed_error_cursor_simps)
  next
    case True
    then obtain c1 c2 c3 c4 p where "b1 = StaticUint32RawKind K # c1 # c2 # c3 # c4 # p"
      using ge5_decomp [of b1] by auto
    with assms b show ?thesis
      by (simp add: decodeBytes_payload framed_error_cursor_simps Let_def
          split: if_splits option.splits prod.splits)
  qed
qed





text \<open>
  C10. Whenever \<open>decodeBytes\<close> returns an error, the byte slice it returns is nil, also
  when the caller passed a destination buffer that is not nil.
\<close>

theorem decodeBytes_error_nil:
  "decodeBytes K grow h b ret = Returns (c, r, Some e, h') \<Longrightarrow> r = None"
  by (simp add: decodeBytes_error)

theorem decodeBytes_error_nil_witness:
  "decodeBytes example_kinds (\<lambda>c n. 2 * c) [[1, 2, 3]] [3, 10, 0, 0, 0, 5, 65]
       (Some \<lparr>slice_base = 0, slice_off = 0, slice_len = 3, slice_cap = 3\<rparr>)
     = Returns ([65], None, Some InvalidBytes, [[1, 2, 3]])"
proof -
  have h: "decodeBytes example_kinds (\<lambda>c n. 2 * c) [[1, 2, 3]] [3, 10, 0, 0, 0, 5, 65]
       (Some \<lparr>slice_base = 0, slice_off = 0, slice_len = 3, slice_cap = 3\<rparr>)
     = Returns ([65], None, Some InvalidBytes, [[1, 2, 3]])"
    by (simp add: decodeBytes_def decodeStaticUint32_def access_defs example_kinds_def)
  from decodeBytes_error_nil [OF h] h show ?thesis by simp
qed

subsection \<open>Accumulation of unsigned varints\<close>

lemma mask7: "(0x7F :: 'a::len word) = mask 7"
  by (simp add: mask_eq_exp_minus_1)

lemma continuation_minus_1: "(continuation - 1 :: 'a::len word) = 0x7F"
  by (simp add: continuation_def)

lemma low7: "(c :: byte) < continuation \<Longrightarrow> c AND 0x7F = c"
proof -
  have c7: "(0x80 :: byte) = 2 ^ 7" by simp
  show "c < continuation \<Longrightarrow> c AND 0x7F = c"
    unfolding continuation_def mask7 c7 by (rule less_mask_eq)
qed

lemma unat_ucast_byte: "unat (ucast (c :: byte) :: 'a::len word) = unat c" if "8 \<le> LENGTH('a)"
proof -
  have "unat c < 2 ^ 8" using unsigned_less [of c] by simp
  also have "(2::nat) ^ 8 \<le> 2 ^ LENGTH('a)" using that by (rule power_increasing) simp
  finally show ?thesis
    by (simp add: unsigned_ucast_eq take_bit_nat_eq_self)
qed

lemma ucast_lt: "(ucast (c :: byte) :: 32 word) < continuation \<longleftrightarrow> c < continuation"
  by (simp add: continuation_def word_less_nat_alt unat_ucast_byte)

lemma ucast_and: "(ucast (c :: byte) :: 32 word) AND 0x7F = ucast (c AND 0x7F)"
  unfolding mask7 by (rule bit_word_eqI) (auto simp: bit_simps)

lemma odd_div_128: "n < 256 \<Longrightarrow> odd ((n::nat) div 128) \<longleftrightarrow> 128 \<le> n"
proof (cases "128 \<le> n")
  case True
  assume "n < 256"
  with True have "n div 128 = 1" by (intro div_nat_eqI) simp_all
  with True show ?thesis by simp
next
  case False
  then have "n div 128 = 0" by simp
  with False show ?thesis by simp
qed

lemma high_bit: "bit (c :: byte) 7 \<longleftrightarrow> \<not> c < continuation"
proof -
  have "unat c < 256" using unsigned_less [of c] by simp
  then have "odd (unat c div 128) \<longleftrightarrow> 128 \<le> unat c"
    by (rule odd_div_128)
  then have "bit (unat c) 7 \<longleftrightarrow> 128 \<le> unat c"
    unfolding bit_iff_odd by simp
  moreover have "bit (unat c) 7 \<longleftrightarrow> bit c 7"
    by (simp add: bit_unsigned_iff)
  ultimately show ?thesis
    by (simp add: continuation_def word_less_nat_alt not_less)
qed

lemma decodeUint16_loop_accumulate:
  "list_all (\<lambda>c. bit c 7) cs \<Longrightarrow> \<not> bit t 7 \<Longrightarrow> length pre = i \<Longrightarrow>
   i + length cs \<le> VarIntLen16 \<Longrightarrow>
   decodeUint16_loop (pre @ cs @ t # rest) i x s
     = Returns (rest, x OR accumulate s (cs @ [t]), None)"
proof (induction cs arbitrary: pre i x s)
  case Nil
  then show ?case
    by (subst decodeUint16_loop.simps)
      (simp add: access_defs high_bit low7 nth_append)
next
  case (Cons c cs)
  from Cons.prems have "decodeUint16_loop ((pre @ [c]) @ cs @ t # rest) (i + 1)
      (x OR push_bit s (ucast (c AND 0x7F))) (s + 7)
    = Returns (rest, (x OR push_bit s (ucast (c AND 0x7F))) OR accumulate (s + 7) (cs @ [t]), None)"
    by (intro Cons.IH) simp_all
  with Cons.prems show ?case
    by (subst decodeUint16_loop.simps)
      (simp add: access_defs high_bit nth_append continuation_minus_1 or.assoc)
qed


lemma decodeUint64_loop_accumulate:
  "list_all (\<lambda>c. bit c 7) cs \<Longrightarrow> \<not> bit t 7 \<Longrightarrow> length pre = i \<Longrightarrow>
   i + length cs \<le> VarIntLen64 \<Longrightarrow>
   decodeUint64_loop (pre @ cs @ t # rest) i x s
     = Returns (rest, x OR accumulate s (cs @ [t]), None)"
proof (induction cs arbitrary: pre i x s)
  case Nil
  then show ?case
    by (subst decodeUint64_loop.simps)
      (simp add: access_defs high_bit low7 nth_append)
next
  case (Cons c cs)
  from Cons.prems have "decodeUint64_loop ((pre @ [c]) @ cs @ t # rest) (i + 1)
      (x OR push_bit s (ucast (c AND 0x7F))) (s + 7)
    = Returns (rest, (x OR push_bit s (ucast (c AND 0x7F))) OR accumulate (s + 7) (cs @ [t]), None)"
    by (intro Cons.IH) simp_all
  with Cons.prems show ?case
    by (subst decodeUint64_loop.simps)
      (simp add: access_defs high_bit nth_append continuation_minus_1 or.assoc)
qed

lemma decodeUint16_accumulate:
  assumes "list_all (\<lambda>c. bit c 7) cs" "\<not> bit t 7" "length cs < VarIntLen16"
  shows "decodeUint16 K (Uint16RawKind K # cs @ t # rest)
    = Returns (rest, accumulate 0 (cs @ [t]), None)"
proof -
  from assms have "decodeUint16_loop ([Uint16RawKind K] @ cs @ t # rest) 1 0 0
      = Returns (rest, 0 OR accumulate 0 (cs @ [t]), None)"
    by (intro decodeUint16_loop_accumulate) simp_all
  then show ?thesis
    by (simp add: decodeUint16_def access_defs)
qed

lemma decodeUint64_accumulate:
  assumes "list_all (\<lambda>c. bit c 7) cs" "\<not> bit t 7" "length cs < VarIntLen64"
  shows "decodeUint64 K (Uint64RawKind K # cs @ t # rest)
    = Returns (rest, accumulate 0 (cs @ [t]), None)"
proof -
  from assms have "decodeUint64_loop ([Uint64RawKind K] @ cs @ t # rest) 1 0 0
      = Returns (rest, 0 OR accumulate 0 (cs @ [t]), None)"
    by (intro decodeUint64_loop_accumulate) simp_all
  then show ?thesis
    by (simp add: decodeUint64_def access_defs)
qed

lemma length_less_5:
  "length cs < 5 \<Longrightarrow>
     cs = [] \<or> (\<exists>a. cs = [a]) \<or> (\<exists>a b. cs = [a, b]) \<or> (\<exists>a b c. cs = [a, b, c])
     \<or> (\<exists>a b c d. cs = [a, b, c, d])"
  by (cases cs; simp; cases "tl cs"; simp; cases "tl (tl cs)"; simp;
      cases "tl (tl (tl cs))"; simp; cases "tl (tl (tl (tl cs)))"; simp)

lemmas uint32_steps = decodeUint32_def access_defs Let_def ucast_lt ucast_and low7 high_bit
  continuation_minus_1 or.assoc

lemma decodeUint32_accumulate:
  assumes "list_all (\<lambda>c. bit c 7) cs" "\<not> bit t 7" "length cs < VarIntLen32"
  shows "decodeUint32 K (Uint32RawKind K # cs @ t # rest)
    = Returns (rest, accumulate 0 (cs @ [t]), None)"
proof -
  from assms(3) consider "cs = []" | a where "cs = [a]" | a b where "cs = [a, b]"
    | a b c where "cs = [a, b, c]" | a b c d where "cs = [a, b, c, d]"
    using length_less_5 [of cs] by (auto simp: VarIntLen32_def)
  then show ?thesis
  proof cases
    case 1
    with assms show ?thesis by (simp add: uint32_steps)
  next
    case 2
    with assms show ?thesis by (simp add: uint32_steps)
  next
    case 3
    with assms show ?thesis by (simp add: uint32_steps)
  next
    case 4
    with assms show ?thesis by (simp add: uint32_steps)
  next
    case 5
    with assms show ?thesis by (simp add: uint32_steps)
  qed
qed

text \<open>
  C9. The unsigned varint decoders accumulate the low 7 bits of each byte at the bit
  offsets 0, 7, 14, ... and stop at the first byte whose high bit is clear: on the tag,
  then continuation bytes \<open>cs\<close> (high bit set, fewer than the maximal byte count), then a
  byte \<open>t\<close> with its high bit clear, the decoder returns the accumulated value of
  \<open>cs @ [t]\<close> and the cursor \<open>rest\<close> behind \<open>t\<close>. In particular \<open>decodeUint32\<close> on the
  Uint32 tag and the bytes 0xAC, 0x02 returns 300 and the empty cursor.
\<close>

theorem varint_accumulate:
  "list_all (\<lambda>c. bit c 7) cs \<Longrightarrow> \<not> bit t 7 \<Longrightarrow>
   (length cs < VarIntLen16 \<longrightarrow>
      decodeUint16 K (Uint16RawKind K # cs @ t # rest)
        = Returns (rest, accumulate 0 (cs @ [t]), None))
   \<and> (length cs < VarIntLen32 \<longrightarrow>
      decodeUint32 K (Uint32RawKind K # cs @ t # rest)
        = Returns (rest, accumulate 0 (cs @ [t]), None))
   \<and> (length cs < VarIntLen64 \<longrightarrow>
      decodeUint64 K (Uint64RawKind K # cs @ t # rest)
        = Returns (rest, accumulate 0 (cs @ [t]), None))
   \<and> decodeUint32 K [Uint32RawKind K, 0xAC, 0x02] = Returns ([], 300, None)"
proof (intro conjI impI)
  assume "list_all (\<lambda>c. bit c 7) cs" "\<not> bit t 7" "length cs < VarIntLen16"
  then show "decodeUint16 K (Uint16RawKind K # cs @ t # rest)
      = Returns (rest, accumulate 0 (cs @ [t]), None)"
    by (rule decodeUint16_accumulate)
next
  assume "list_all (\<lambda>c. bit c 7) cs" "\<not> bit t 7" "length cs < VarIntLen32"
  then show "decodeUint32 K (Uint32RawKind K # cs @ t # rest)
      = Returns (rest, accumulate 0 (cs @ [t]), None)"
    by (rule decodeUint32_accumulate)
next
  assume "list_all (\<lambda>c. bit c 7) cs" "\<not> bit t 7" "length cs < VarIntLen64"
  then show "decodeUint64 K (Uint64RawKind K # cs @ t # rest)
      = Returns (rest, accumulate 0 (cs @ [t]), None)"
    by (rule decodeUint64_accumulate)
next
  show "decodeUint32 K [Uint32RawKind K, 0xAC, 0x02] = Returns ([], 300, None)"
    by (simp add: decodeUint32_def access_defs continuation_def)
qed

theorem varint_accumulate_witness:
  "list_all (\<lambda>c. bit c 7) [0xAC :: byte] \<and> \<not> bit (0x02 :: byte) 7
   \<and> length [0xAC :: byte] < VarIntLen16 \<and> length [0xAC :: byte] < VarIntLen32
   \<and> length [0xAC :: byte] < VarIntLen64
   \<and> decodeUint16 example_kinds [8, 0xAC, 0x02, 7] = Returns ([7], 300, None)
   \<and> decodeUint32 example_kinds [9, 0xAC, 0x02, 7] = Returns ([7], 300, None)
   \<and> decodeUint64 example_kinds [11, 0xAC, 0x02, 7] = Returns ([7], 300, None)"
proof -
  have h1: "list_all (\<lambda>c. bit c 7) [0xAC :: byte]" by simp
  have h2: "\<not> bit (0x02 :: byte) 7" by simp
  have l: "length [0xAC :: byte] < VarIntLen16" "length [0xAC :: byte] < VarIntLen32"
    "length [0xAC :: byte] < VarIntLen64"
    by (simp_all add: VarIntLen16_def VarIntLen32_def VarIntLen64_def)
  have a: "accumulate 0 ([0xAC] @ [0x02]) = (300 :: 16 word)"
    "accumulate 0 ([0xAC] @ [0x02]) = (300 :: 32 word)"
    "accumulate 0 ([0xAC] @ [0x02]) = (300 :: 64 word)"
    by simp_all
  have k: "Uint16RawKind example_kinds = 8" "Uint32RawKind example_kinds = 9"
    "Uint64RawKind example_kinds = 11"
    by (simp_all add: example_kinds_def)
  from varint_accumulate [OF h1 h2, of example_kinds "[7]"] l a k h1 h2
  show ?thesis by simp
qed

subsection \<open>Signed varints and zigzag\<close>

lemma uint_drop_bit_1: "uint (drop_bit 1 u) = drop_bit 1 (uint u)" for u :: "'a::len word"
  by (simp add: unsigned_drop_bit_eq take_bit_int_eq_self)

lemma and_1_iff: "u AND 1 \<noteq> 0 \<longleftrightarrow> uint u AND 1 \<noteq> 0" for u :: "'a::len word"
proof -
  have "u AND 1 = 0 \<longleftrightarrow> uint (u AND 1) = 0"
    by (simp add: word_uint_eq_iff)
  then show ?thesis by (simp add: uint_and)
qed

lemma zigzag_word:
  "word_of_int (zigzag (uint u)) = (if u AND 1 \<noteq> 0 then - (drop_bit 1 u + 1) else drop_bit 1 u)"
  for u :: "'a::len word"
proof -
  have "word_of_int (uint (drop_bit 1 u)) = drop_bit 1 u"
    by (rule word_of_int_uint)
  then have "word_of_int (drop_bit 1 (uint u)) = (drop_bit 1 u :: 'a word)"
    by (simp only: uint_drop_bit_1)
  then show ?thesis
    by (simp add: zigzag_def Let_def and_1_iff)
qed

lemma zigzag_range:
  "sint (word_of_int (zigzag (uint u)) :: 'a word) = zigzag (uint u)" for u :: "'a::len word"
proof -
  let ?n = "LENGTH('a) - 1"
  have u: "0 \<le> uint u" "uint u < 2 ^ LENGTH('a)"
    by simp_all
  have "(2::int) ^ LENGTH('a) = 2 * 2 ^ ?n"
    by (cases "LENGTH('a)") simp_all
  with u have v: "0 \<le> uint u div 2" "uint u div 2 < 2 ^ ?n"
    by simp_all
  have z: "zigzag (uint u) = uint u div 2 \<or> zigzag (uint u) = - (uint u div 2 + 1)"
    by (simp add: zigzag_def Let_def drop_bit_eq_div)
  have p: "(0::int) < 2 ^ ?n" by simp
  from z have "- (2 ^ ?n) \<le> zigzag (uint u) \<and> zigzag (uint u) < 2 ^ ?n"
  proof (elim disjE)
    assume "zigzag (uint u) = uint u div 2"
    with v p show ?thesis by linarith
  next
    assume "zigzag (uint u) = - (uint u div 2 + 1)"
    with v p show ?thesis by linarith
  qed
  then show ?thesis
    by (simp add: sint_sbintrunc' signed_take_bit_int_eq_self)
qed

lemma decodeInt64_loop_zigzag:
  "1 \<le> i \<Longrightarrow>
   decodeInt64_loop (t1 # p) i x s
     = via_zigzag InvalidInt64 (t1 # p) (decodeUint64_loop (t2 # p) i x s)"
proof (induction "VarIntLen64 + 1 - i" arbitrary: i x s)
  case 0
  then show ?case
    by (subst decodeInt64_loop.simps, subst decodeUint64_loop.simps)
      (simp add: via_zigzag_def)
next
  case (Suc n)
  from Suc.hyps(2) have i: "i < VarIntLen64 + 1" by simp
  have step: "decodeInt64_loop (t1 # p) (Suc i) x' s'
      = via_zigzag InvalidInt64 (t1 # p) (decodeUint64_loop (t2 # p) (Suc i) x' s')" for x' s'
    using Suc.hyps(2) by (intro Suc.hyps(1)) simp_all
  from i Suc.prems show ?case
    by (subst decodeInt64_loop.simps, subst decodeUint64_loop.simps)
      (simp add: access_defs step nth_Cons' via_zigzag_def zigzag_word Let_def)
qed

lemma decodeInt64_zigzag:
  "decodeInt64 K (Int64RawKind K # p)
     = via_zigzag InvalidInt64 (Int64RawKind K # p) (decodeUint64 K (Uint64RawKind K # p))"
  by (cases p)
    (simp_all add: decodeInt64_def decodeUint64_def access_defs decodeInt64_loop_zigzag,
      simp add: via_zigzag_def)

lemma list_shapes_5:
  "p = [] \<or> (\<exists>a. p = [a]) \<or> (\<exists>a b. p = [a, b]) \<or> (\<exists>a b c. p = [a, b, c])
     \<or> (\<exists>a b c d. p = [a, b, c, d]) \<or> (\<exists>a b c d e r. p = a # b # c # d # e # r)"
  by (cases p; simp; cases "tl p"; simp; cases "tl (tl p)"; simp;
      cases "tl (tl (tl p))"; simp; cases "tl (tl (tl (tl p)))"; simp)

lemmas int32_steps = decodeInt32_def decodeUint32_def access_defs Let_def via_zigzag_def
  zigzag_word

lemma decodeInt32_zigzag:
  "decodeInt32 K (Int32RawKind K # p)
     = via_zigzag InvalidInt32 (Int32RawKind K # p) (decodeUint32 K (Uint32RawKind K # p))"
proof -
  consider "p = []" | a where "p = [a]" | a b where "p = [a, b]"
    | a b c where "p = [a, b, c]" | a b c d where "p = [a, b, c, d]"
    | a b c d e r where "p = a # b # c # d # e # r"
    using list_shapes_5 [of p] by blast
  then show ?thesis
  proof cases
    case 1
    then show ?thesis by (simp add: int32_steps)
  next
    case 2
    then show ?thesis by (simp add: int32_steps)
  next
    case 3
    then show ?thesis by (simp add: int32_steps)
  next
    case 4
    then show ?thesis by (simp add: int32_steps)
  next
    case 5
    then show ?thesis by (simp add: int32_steps)
  next
    case 6
    then show ?thesis by (simp add: int32_steps)
  qed
qed

text \<open>
  C7. On the same payload bytes, a signed decoder returns what the unsigned varint
  decoder of its width returns, with the value \<open>u\<close> replaced by its zigzag decoding:
  \<open>u >> 1\<close> if the low bit of \<open>u\<close> is clear and \<open>-((u >> 1) + 1)\<close> if it is set (read as
  a signed number, the result is exactly that integer). It panics where the unsigned
  decoder panics and fails with its own error where the unsigned decoder fails. In
  particular the Int32 tag followed by the varint byte 0x01 decodes to -1.
\<close>

theorem zigzag_decode:
  "decodeInt32 K (Int32RawKind K # p)
     = via_zigzag InvalidInt32 (Int32RawKind K # p) (decodeUint32 K (Uint32RawKind K # p))
   \<and> decodeInt64 K (Int64RawKind K # p)
     = via_zigzag InvalidInt64 (Int64RawKind K # p) (decodeUint64 K (Uint64RawKind K # p))
   \<and> sint (word_of_int (zigzag (uint u32)) :: 32 word) = zigzag (uint (u32 :: 32 word))
   \<and> sint (word_of_int (zigzag (uint u64)) :: 64 word) = zigzag (uint (u64 :: 64 word))
   \<and> decodeInt32 K [Int32RawKind K, 0x01] = Returns ([], - 1, None)"
proof (intro conjI)
  show "decodeInt32 K (Int32RawKind K # p)
      = via_zigzag InvalidInt32 (Int32RawKind K # p) (decodeUint32 K (Uint32RawKind K # p))"
    by (rule decodeInt32_zigzag)
  show "decodeInt64 K (Int64RawKind K # p)
      = via_zigzag InvalidInt64 (Int64RawKind K # p) (decodeUint64 K (Uint64RawKind K # p))"
    by (rule decodeInt64_zigzag)
  show "sint (word_of_int (zigzag (uint u32)) :: 32 word) = zigzag (uint u32)"
    by (rule zigzag_range)
  show "sint (word_of_int (zigzag (uint u64)) :: 64 word) = zigzag (uint u64)"
    by (rule zigzag_range)
  show "decodeInt32 K [Int32RawKind K, 0x01] = Returns ([], - 1, None)"
    by (simp add: decodeInt32_def access_defs continuation_def)
qed

theorem zigzag_decode_witness:
  "decodeInt32 example_kinds [12, 0xAC, 0x02] = Returns ([], 150, None)
   \<and> decodeInt64 example_kinds [13, 0x03, 9] = Returns ([9], - 2, None)
   \<and> sint (- 2 :: 64 word) = - 2"
proof -
  have u32: "decodeUint32 example_kinds [9, 0xAC, 0x02] = Returns ([], 300, None)"
    by (simp add: decodeUint32_def access_defs continuation_def example_kinds_def)
  have u64: "decodeUint64 example_kinds [11, 0x03, 9] = Returns ([9], 3, None)"
    by (simp add: decodeUint64_def decodeUint64_loop.simps access_defs continuation_def
        VarIntLen64_def example_kinds_def)
  have z: "zigzag 300 = 150" "zigzag 3 = - 2"
    by (simp_all add: zigzag_def)
  have k: "Int32RawKind example_kinds = 12" "Uint32RawKind example_kinds = 9"
    "Int64RawKind example_kinds = 13" "Uint64RawKind example_kinds = 11"
    by (simp_all add: example_kinds_def)
  from zigzag_decode [of example_kinds "[0xAC, 0x02]" 300 3]
    zigzag_decode [of example_kinds "[0x03, 9]" 300 3] u32 u64 z k
  show ?thesis by (simp add: via_zigzag_def)
qed

subsection \<open>Truncated input\<close>

text \<open>
  The decoders of the fixed-width kinds, of the container headers and of the
  length-prefixed kinds test the length before every read: they return on every cursor.
\<close>

lemma decodeNil_return: "decodeNil K b \<noteq> Panic"
  by (cases b) (simp_all add: decodeNil_def access_defs)

lemma fixed_width_return:
  "decodeBool K b \<noteq> Panic" "decodeUint8 K b \<noteq> Panic"
  "decodeStaticUint32 K b \<noteq> Panic" "decodeFloat32 K b \<noteq> Panic"
  "decodeFloat64 K b \<noteq> Panic" "decodeMap K b keyKind valueKind \<noteq> Panic"
  "decodeSlice K b kind \<noteq> Panic"
  by (simp_all add: decodeBool_def decodeUint8_def decodeStaticUint32_eq
      decodeFloat32_def decodeFloat64_def decodeMap_eq decodeSlice_eq access_defs)

lemma decodeString_return: "decodeString K b \<noteq> Panic"
proof (cases "1 \<le> length b \<and> b ! 0 = StringRawKind K")
  case False
  then show ?thesis by (simp add: decodeString_tag)
next
  case True
  then obtain b1 where b: "b = StringRawKind K # b1"
    by (cases b) auto
  show ?thesis
  proof (cases "5 \<le> length b1 \<and> b1 ! 0 = StaticUint32RawKind K")
    case False
    with b show ?thesis by (simp add: decodeString_static)
  next
    case True
    then obtain c1 c2 c3 c4 p where "b1 = StaticUint32RawKind K # c1 # c2 # c3 # c4 # p"
      using ge5_decomp [of b1] by auto
    with b show ?thesis by (simp add: decodeString_payload)
  qed
qed

lemma decodeError_return: "decodeError K b \<noteq> Panic"
proof (cases b)
  case Nil
  then show ?thesis by (simp add: decodeError_def)
next
  case (Cons t b1)
  with decodeString_return [of K b1] show ?thesis
    by (auto simp: decodeError_def access_defs split: go.splits)
qed

lemma decodeBytes_return: "decodeBytes K grow h b ret \<noteq> Panic"
proof (cases "1 \<le> length b \<and> b ! 0 = BytesRawKind K")
  case False
  then show ?thesis by (simp add: decodeBytes_tag)
next
  case True
  then obtain b1 where b: "b = BytesRawKind K # b1"
    by (cases b) auto
  show ?thesis
  proof (cases "5 \<le> length b1 \<and> b1 ! 0 = StaticUint32RawKind K")
    case False
    with b show ?thesis by (simp add: decodeBytes_static)
  next
    case True
    then obtain c1 c2 c3 c4 p where "b1 = StaticUint32RawKind K # c1 # c2 # c3 # c4 # p"
      using ge5_decomp [of b1] by auto
    with b show ?thesis
      by (simp add: decodeBytes_payload Let_def split: option.splits prod.splits)
  qed
qed

text \<open>
  C1. The varint decoders do not return on every cursor. They test \<open>len(b) > 1\<close> only,
  and after a continuation byte they read the next byte without a test: on the tag and
  the single byte 0xAC (the encoding of 300, the tag and 0xAC, 0x02, cut by one byte)
  \<open>decodeUint32\<close> reads \<open>b[2]\<close> out of range and panics instead of returning
  InvalidUint32, and so do \<open>decodeUint16\<close>, \<open>decodeUint64\<close>, \<open>decodeInt32\<close> and
  \<open>decodeInt64\<close>.
\<close>

theorem varint_truncated_panics:
  "decodeUint32 K [Uint32RawKind K, 0xAC] = Panic
   \<and> decodeUint16 K [Uint16RawKind K, 0xAC] = Panic
   \<and> decodeUint64 K [Uint64RawKind K, 0xAC] = Panic
   \<and> decodeInt32 K [Int32RawKind K, 0xAC] = Panic
   \<and> decodeInt64 K [Int64RawKind K, 0xAC] = Panic"
  by (simp add: decodeUint32_def decodeUint16_def decodeUint64_def decodeInt32_def
      decodeInt64_def decodeUint16_loop.simps decodeUint64_loop.simps decodeInt64_loop.simps
      access_defs continuation_def VarIntLen16_def VarIntLen64_def)

subsection \<open>Varint overflow\<close>

text \<open>
  C2. The overflow test of \<open>decodeUint64\<close> and \<open>decodeUint16\<close>,
  \<open>i > VarIntLen && cb > 1\<close>, is never true in a loop that ends at \<open>i = VarIntLen\<close>, and
  the unrolled \<open>decodeUint32\<close> has no such test: a final byte greater than 1 at the
  maximal position is accepted. Ten bytes ending in 0x02 decode as a Uint64 to the
  wrapped value 0 without an error, and so do five bytes ending in 0x10 as a Uint32 and
  three bytes ending in 0x04 as a Uint16; a final byte 0x02 is accepted by
  \<open>decodeUint32\<close> and \<open>decodeUint16\<close> as well.
\<close>

theorem varint_overflow_accepted:
  "decodeUint64 K [Uint64RawKind K, 0x80, 0x80, 0x80, 0x80, 0x80, 0x80, 0x80, 0x80, 0x80, 0x02]
     = Returns ([], 0, None)
   \<and> decodeUint32 K [Uint32RawKind K, 0x80, 0x80, 0x80, 0x80, 0x10] = Returns ([], 0, None)
   \<and> decodeUint16 K [Uint16RawKind K, 0x80, 0x80, 0x04] = Returns ([], 0, None)
   \<and> decodeUint32 K [Uint32RawKind K, 0x80, 0x80, 0x80, 0x80, 0x02]
     = Returns ([], 0x20000000, None)
   \<and> decodeUint16 K [Uint16RawKind K, 0x80, 0x80, 0x02] = Returns ([], 0x8000, None)"
  by (simp add: decodeUint32_def decodeUint16_def decodeUint64_def
      decodeUint16_loop.simps decodeUint64_loop.simps
      access_defs continuation_def VarIntLen16_def VarIntLen64_def)

subsection \<open>The destination buffer of decodeBytes\<close>

text \<open>
  On success \<open>decodeBytes\<close> returns a slice whose length is the larger of the payload
  length and the length of the destination passed in.
\<close>

lemma decodeBytes_returned_length:
  assumes "unat (be32 c1 c2 c3 c4) \<le> length p"
  shows "\<exists>r h'. decodeBytes K grow h
            (BytesRawKind K # StaticUint32RawKind K # c1 # c2 # c3 # c4 # p) ret
          = Returns (drop (unat (be32 c1 c2 c3 c4)) p, r, None, h')
        \<and> len_slice r = max (unat (be32 c1 c2 c3 c4)) (len_slice ret)"
proof (cases ret)
  case None
  with assms show ?thesis
    by (simp add: decodeBytes_payload Let_def len_slice_def make_bytes_def)
next
  case (Some s)
  with assms show ?thesis
    by (simp add: decodeBytes_payload Let_def len_slice_def append_bytes_def max_def
        split: prod.splits)
qed

text \<open>
  C4. With a destination longer than the payload, \<open>decodeBytes\<close> copies the payload to
  the front of the destination and returns the destination at its old length: for a
  payload of length 1 and a destination of 3 bytes the returned slice has length 3, the
  payload byte followed by two bytes of the old contents, and not length 1.
\<close>

theorem decodeBytes_longer_destination:
  "decodeBytes K grow [[1, 2, 3]]
       [BytesRawKind K, StaticUint32RawKind K, 0, 0, 0, 1, 0xAA]
       (Some \<lparr>slice_base = 0, slice_off = 0, slice_len = 3, slice_cap = 3\<rparr>)
     = Returns ([], Some \<lparr>slice_base = 0, slice_off = 0, slice_len = 3, slice_cap = 3\<rparr>, None,
         [[0xAA, 2, 3]])
   \<and> slice_bytes [[0xAA, 2, 3]]
         (Some \<lparr>slice_base = 0, slice_off = 0, slice_len = 3, slice_cap = 3\<rparr>) = [0xAA, 2, 3]"
  by (simp add: decodeBytes_payload len_slice_def copy_bytes_def write_at_def slice_bytes_def
      be32_def)

end
